theory Spec2Isabelle
  imports Complex_Main
begin

section \<open>The Qdrant adapter of llmagent (src/llmagent/vector_store/qdrantdb.py)\<close>

text \<open>
  The class \<open>QdrantDB\<close> connects the vector-store abstraction to the Qdrant client
  library and to an embedding provider. Both collaborators are outside the file: they
  are taken as parameters (the record \<open>env\<close>), every call to them is written to a
  trace, and the exceptions of the Python are values of the type \<open>error\<close>. A method
  is a function from the state before the call to its outcome (\<open>Inl\<close> an exception,
  \<open>Inr\<close> the returned value) and the state after the call; the state after the call
  is given for an exception too, since what a Python method has written before it raises
  stays written.
\<close>

subsection \<open>Data\<close>

datatype error =
    ValueError string
  | AssertionError
  | AttributeError
  | TypeError
  | IndexError
  | ValidationError
  | ServiceError string

text \<open>\<open>qdrant_client.http.models.Distance\<close> and \<open>CollectionStatus\<close>.\<close>

datatype distance = Cosine | Euclid | Dot

datatype collection_status = Green | Yellow | Red

text \<open>
  Vectors and scores are floating-point numbers in the Python. The adapter hands them on
  as they are and compares scores only for the debug message, so they are reals here.
\<close>

type_synonym vector = "real list"

type_synonym payload = "(string \<times> string) list"

text \<open>
  \<open>llmagent.mytypes.Document\<close>: a text content and metadata fields.
\<close>

record document =
  content :: string
  metadata :: "(string \<times> string) list"

text \<open>What \<open>client.get_collection\<close> answers, with the fields the adapter reads.\<close>

record collection_info =
  status :: collection_status
  points_count :: nat
  vectors_count :: nat

record vector_params =
  vp_size :: nat
  vp_distance :: distance

text \<open>\<open>Batch(ids, vectors, payloads)\<close>; the adapter passes the documents as payloads.\<close>

record batch =
  ids :: "string list"
  vectors :: "vector list"
  payloads :: "document list"

record search_params =
  hnsw_ef :: nat
  exact :: bool

datatype qfilter = EmptyFilter | JsonFilter string

record scored_point =
  sp_id :: string
  score :: real
  payload :: "payload option"

text \<open>
  The calls that leave the adapter, in the order they are made: to the embedding
  provider, to the client, to the logger and to the console.
\<close>

datatype log_message =
    NoMatchesFound string
  | FoundMatches nat real
  | CollectionInfo collection_info

datatype event =
    EmbeddingCall "string list"
  | GetCollections
  | GetCollection string
  | DeleteCollection string
  | RecreateCollection string vector_params
  | Upsert string batch
  | Search string vector qfilter int search_params
  | LogWarning log_message
  | LogInfo log_message
  | Show "(document \<times> real) list"

text \<open>
  The collaborators. \<open>'s\<close> is the state of the vector-database service; a client call
  takes it and returns it, changed or not, with its answer. The embedding function and
  \<open>Filter.from_json\<close> may raise. \<open>content_hash\<close> is the hash function under
  \<open>_unique_hash_id\<close>.
\<close>

record 's env =
  embedding_fn :: "string list \<Rightarrow> error + vector list"
  filter_from_json :: "string \<Rightarrow> error + qfilter"
  content_hash :: "string \<Rightarrow> string"
  client_get_collections :: "'s \<Rightarrow> (error + string list) \<times> 's"
  client_get_collection :: "string \<Rightarrow> 's \<Rightarrow> (error + collection_info) \<times> 's"
  client_delete_collection :: "string \<Rightarrow> 's \<Rightarrow> (error + unit) \<times> 's"
  client_recreate_collection :: "string \<Rightarrow> vector_params \<Rightarrow> 's \<Rightarrow> (error + unit) \<times> 's"
  client_upsert :: "string \<Rightarrow> batch \<Rightarrow> 's \<Rightarrow> (error + unit) \<times> 's"
  client_search ::
    "string \<Rightarrow> vector \<Rightarrow> qfilter \<Rightarrow> int \<Rightarrow> search_params \<Rightarrow> 's \<Rightarrow>
       (error + scored_point option list) \<times> 's"

text \<open>
  The adapter and what it reaches: \<open>config.collection_name\<close>, \<open>config.distance\<close>,
  \<open>self.embedding_dim\<close>, the global \<open>settings.debug\<close>, the level of the module's
  logger, the service behind \<open>self.client\<close>, and the trace of the calls made so far.
\<close>

record 's world =
  collection_name :: "string option"
  distance :: distance
  embedding_dim :: nat
  debug :: bool
  logger_level :: int
  client_state :: 's
  trace :: "event list"

subsection \<open>Calls to the collaborators\<close>

definition emit :: "event \<Rightarrow> 's world \<Rightarrow> 's world" where
  "emit ev w = w\<lparr>trace := trace w @ [ev]\<rparr>"

definition call_client ::
  "event \<Rightarrow> ('s \<Rightarrow> (error + 'a) \<times> 's) \<Rightarrow> 's world \<Rightarrow> (error + 'a) \<times> 's world" where
  "call_client ev f w =
     (case f (client_state w) of
        (r, s') \<Rightarrow> (r, emit ev (w\<lparr>client_state := s'\<rparr>)))"

definition call_embedding_fn ::
  "'s env \<Rightarrow> string list \<Rightarrow> 's world \<Rightarrow> (error + vector list) \<times> 's world" where
  "call_embedding_fn c texts w = (embedding_fn c texts, emit (EmbeddingCall texts) w)"

subsection \<open>Collaborators of this repository that are not in the file\<close>

text \<open>
  Modelled from the spec: \<open>VectorStore._unique_hash_id\<close> (llmagent/vector_store/base.py)
  is missing. The spec calls the identifier "derivable deterministically from its
  content (a content hash)" and "id = deterministic hash of content".
\<close>

definition unique_hash_id :: "'s env \<Rightarrow> document \<Rightarrow> string" where
  "unique_hash_id c d = content_hash c (content d)"

text \<open>
  Modelled from the spec: the constructor of \<open>Document\<close> (llmagent/mytypes.py), which
  the search calls with the fields of the payload as keyword arguments, is missing. The
  spec: "each stored point's payload is the serialized form of a Document (content + any
  metadata fields); on read, it must deserialize back into the same Document shape". A
  payload that is \<open>None\<close> cannot be unpacked into keyword arguments; a payload with
  no content field does not have the shape.
\<close>

definition payload_of_document :: "document \<Rightarrow> payload" where
  "payload_of_document d = (''content'', content d) # metadata d"

definition document_of_payload :: "payload option \<Rightarrow> error + document" where
  "document_of_payload p =
     (case p of
        None \<Rightarrow> Inl TypeError
      | Some kvs \<Rightarrow>
          (case map_of kvs ''content'' of
             None \<Rightarrow> Inl ValidationError
           | Some t \<Rightarrow>
               Inr \<lparr>content = t, metadata = filter (\<lambda>kv. fst kv \<noteq> ''content'') kvs\<rparr>))"

text \<open>
  Modelled from the spec: \<open>VectorStore.show_if_debug\<close> (llmagent/vector_store/base.py)
  is missing. The spec knows the debug flag as what raises verbosity; the pairs are
  shown when it is set, and nothing else happens.
\<close>

definition show_if_debug :: "(document \<times> real) list \<Rightarrow> 's world \<Rightarrow> 's world" where
  "show_if_debug pairs w = (if debug w then emit (Show pairs) w else w)"

subsection \<open>The methods of \<open>QdrantDB\<close>\<close>

definition list_collections :: "'s env \<Rightarrow> 's world \<Rightarrow> (error + string list) \<times> 's world" where
  "list_collections c w = call_client GetCollections (client_get_collections c) w"

text \<open>The loop body of \<open>clear_empty_collections\<close>, over the names still to visit.\<close>

fun clear_loop ::
  "'s env \<Rightarrow> string list \<Rightarrow> nat \<Rightarrow> 's world \<Rightarrow> (error + nat) \<times> 's world" where
  "clear_loop c [] n_deletes w = (Inr n_deletes, w)"
| "clear_loop c (name # names) n_deletes w =
     (case call_client (GetCollection name) (client_get_collection c name) w of
        (Inl e, w1) \<Rightarrow> (Inl e, w1)
      | (Inr info, w1) \<Rightarrow>
          if points_count info = 0 then
            (case call_client (DeleteCollection name) (client_delete_collection c name) w1 of
               (Inl e, w2) \<Rightarrow> (Inl e, w2)
             | (Inr _, w2) \<Rightarrow> clear_loop c names (n_deletes + 1) w2)
          else clear_loop c names n_deletes w1)"

definition clear_empty_collections :: "'s env \<Rightarrow> 's world \<Rightarrow> (error + nat) \<times> 's world" where
  "clear_empty_collections c w =
     (case list_collections c w of
        (Inl e, w1) \<Rightarrow> (Inl e, w1)
      | (Inr coll_names, w1) \<Rightarrow> clear_loop c coll_names 0 w1)"

definition create_collection ::
  "'s env \<Rightarrow> string \<Rightarrow> 's world \<Rightarrow> (error + unit) \<times> 's world" where
  "create_collection c name w =
     (let w0 = w\<lparr>collection_name := Some name\<rparr>;
          params = \<lparr>vp_size = embedding_dim w0, vp_distance = Cosine\<rparr>
      in case call_client (RecreateCollection name params)
                (client_recreate_collection c name params) w0 of
           (Inl e, w1) \<Rightarrow> (Inl e, w1)
         | (Inr _, w1) \<Rightarrow>
             (case call_client (GetCollection name) (client_get_collection c name) w1 of
                (Inl e, w2) \<Rightarrow> (Inl e, w2)
              | (Inr info, w2) \<Rightarrow>
                  if status info \<noteq> Green then (Inl AssertionError, w2)
                  else if vectors_count info \<noteq> 0 then (Inl AssertionError, w2)
                  else if debug w2 then
                    (let level = logger_level w2;
                         w3 = w2\<lparr>logger_level := 20\<rparr>;
                         w4 = emit (LogInfo (CollectionInfo info)) w3
                     in (Inr (), w4\<lparr>logger_level := level\<rparr>))
                  else (Inr (), w2)))"

definition set_collection ::
  "'s env \<Rightarrow> string \<Rightarrow> 's world \<Rightarrow> (error + unit) \<times> 's world" where
  "set_collection c name w =
     (let w0 = w\<lparr>collection_name := Some name\<rparr>
      in case list_collections c w0 of
           (Inl e, w1) \<Rightarrow> (Inl e, w1)
         | (Inr names, w1) \<Rightarrow>
             if name \<notin> set names then create_collection c name w1 else (Inr (), w1))"

definition add_documents ::
  "'s env \<Rightarrow> document list \<Rightarrow> 's world \<Rightarrow> (error + unit) \<times> 's world" where
  "add_documents c documents w =
     (case call_embedding_fn c (map content documents) w of
        (Inl e, w1) \<Rightarrow> (Inl e, w1)
      | (Inr embedding_vecs, w1) \<Rightarrow>
          (case collection_name w1 of
             None \<Rightarrow> (Inl (ValueError ''No collection name set, cannot ingest docs''), w1)
           | Some cn \<Rightarrow>
               (let b = \<lparr>ids = map (unique_hash_id c) documents,
                         vectors = embedding_vecs,
                         payloads = documents\<rparr>
                in call_client (Upsert cn b) (client_upsert c cn b) w1)))"

definition delete_collection ::
  "'s env \<Rightarrow> string \<Rightarrow> 's world \<Rightarrow> (error + unit) \<times> 's world" where
  "delete_collection c name w =
     call_client (DeleteCollection name) (client_delete_collection c name) w"

text \<open>
  \<open>[match.score for match in search_result]\<close>: reading \<open>score\<close> of \<open>None\<close> raises.
\<close>

fun scores_of :: "scored_point option list \<Rightarrow> error + real list" where
  "scores_of [] = Inr []"
| "scores_of (None # ms) = Inl AttributeError"
| "scores_of (Some m # ms) =
     (case scores_of ms of Inl e \<Rightarrow> Inl e | Inr ss \<Rightarrow> Inr (score m # ss))"

text \<open>
  The list \<open>docs\<close>: one \<open>Document\<close>, built from \<open>match.payload\<close>, for every
  \<open>match\<close> in \<open>search_result\<close> that \<open>is not None\<close>.
\<close>

fun docs_of :: "scored_point option list \<Rightarrow> error + document list" where
  "docs_of [] = Inr []"
| "docs_of (None # ms) = docs_of ms"
| "docs_of (Some m # ms) =
     (case document_of_payload (payload m) of
        Inl e \<Rightarrow> Inl e
      | Inr d \<Rightarrow> (case docs_of ms of Inl e \<Rightarrow> Inl e | Inr ds \<Rightarrow> Inr (d # ds)))"

text \<open>\<open>max(scores)\<close>, which raises on the empty list.\<close>

definition max_score :: "real list \<Rightarrow> error + real" where
  "max_score ss =
     (case ss of
        [] \<Rightarrow> Inl (ValueError ''max() arg is an empty sequence'')
      | x # xs \<Rightarrow> Inr (fold max xs x))"

text \<open>The part of \<open>similar_texts_with_scores\<close> after the search has answered.\<close>

definition shape_results ::
  "string \<Rightarrow> scored_point option list \<Rightarrow> 's world \<Rightarrow>
     (error + (document \<times> real) list) \<times> 's world" where
  "shape_results text search_result w =
     (case scores_of search_result of
        Inl e \<Rightarrow> (Inl e, w)
      | Inr scores \<Rightarrow>
          (case docs_of search_result of
             Inl e \<Rightarrow> (Inl e, w)
           | Inr docs \<Rightarrow>
               if length docs = 0 then (Inr [], emit (LogWarning (NoMatchesFound text)) w)
               else
                 (case (if debug w
                        then (case max_score scores of
                                Inl e \<Rightarrow> Inl e
                              | Inr m \<Rightarrow> Inr (emit (LogInfo (FoundMatches (length docs) m)) w))
                        else Inr w) of
                    Inl e \<Rightarrow> (Inl e, w)
                  | Inr w1 \<Rightarrow>
                      (let doc_score_pairs = zip docs scores
                       in (Inr doc_score_pairs, show_if_debug doc_score_pairs w1)))))"

definition similar_texts_with_scores ::
  "'s env \<Rightarrow> string \<Rightarrow> int \<Rightarrow> string option \<Rightarrow> 's world \<Rightarrow>
     (error + (document \<times> real) list) \<times> 's world" where
  "similar_texts_with_scores c text k where_json w =
     (case call_embedding_fn c [text] w of
        (Inl e, w1) \<Rightarrow> (Inl e, w1)
      | (Inr vecs, w1) \<Rightarrow>
          (case vecs of
             [] \<Rightarrow> (Inl IndexError, w1)
           | embedding # _ \<Rightarrow>
               (case (case where_json of
                        None \<Rightarrow> Inr EmptyFilter
                      | Some j \<Rightarrow> filter_from_json c j) of
                  Inl e \<Rightarrow> (Inl e, w1)
                | Inr flt \<Rightarrow>
                    (case collection_name w1 of
                       None \<Rightarrow> (Inl (ValueError ''No collection name set, cannot search''), w1)
                     | Some cn \<Rightarrow>
                         (let sp = \<lparr>hnsw_ef = 128, exact = False\<rparr>
                          in case call_client (Search cn embedding flt k sp)
                                    (client_search c cn embedding flt k sp) w1 of
                               (Inl e, w2) \<Rightarrow> (Inl e, w2)
                             | (Inr search_result, w2) \<Rightarrow>
                                 shape_results text search_result w2)))))"

subsection \<open>A vector-database service\<close>

text \<open>
  Modelled from the spec: the service behind \<open>qdrant_client.QdrantClient\<close> is an
  external library. The spec describes a collection as "a named container in the
  external database holding vectors + payloads; created with a fixed vector
  dimensionality and distance metric", recreation as "destroys any existing collection
  of that name and recreates it empty", deletion as "removes a named collection
  unconditionally", ingestion as "same content, same id, overwrite, not duplicate", and
  search as retrieving "up to k scored matches" in order of descending similarity. The
  service below does that and no more: collection names are looked up in an association
  list, a point is stored under its id, and every point carries one vector, so that the
  vector count it reports is its point count. The similarity of two vectors under a
  metric is a parameter.
\<close>

record point =
  pid :: string
  pvector :: vector
  ppayload :: payload

record collection =
  c_params :: vector_params
  c_status :: collection_status
  c_points :: "point list"

type_synonym store = "(string \<times> collection) list"

definition store_get_collections :: "store \<Rightarrow> (error + string list) \<times> store" where
  "store_get_collections s = (Inr (map fst s), s)"

definition store_get_collection :: "string \<Rightarrow> store \<Rightarrow> (error + collection_info) \<times> store" where
  "store_get_collection name s =
     (case map_of s name of
        None \<Rightarrow> (Inl (ServiceError ''collection not found''), s)
      | Some col \<Rightarrow>
          (Inr \<lparr>status = c_status col,
                points_count = length (c_points col),
                vectors_count = length (c_points col)\<rparr>, s))"

definition remove_collection :: "string \<Rightarrow> store \<Rightarrow> store" where
  "remove_collection name s = filter (\<lambda>e. fst e \<noteq> name) s"

definition store_delete_collection :: "string \<Rightarrow> store \<Rightarrow> (error + unit) \<times> store" where
  "store_delete_collection name s = (Inr (), remove_collection name s)"

definition new_collection :: "vector_params \<Rightarrow> collection" where
  "new_collection params = \<lparr>c_params = params, c_status = Green, c_points = []\<rparr>"

definition store_recreate_collection ::
  "string \<Rightarrow> vector_params \<Rightarrow> store \<Rightarrow> (error + unit) \<times> store" where
  "store_recreate_collection name params s =
     (Inr (), remove_collection name s @ [(name, new_collection params)])"

fun upsert_point :: "point \<Rightarrow> point list \<Rightarrow> point list" where
  "upsert_point p [] = [p]"
| "upsert_point p (q # qs) = (if pid q = pid p then p # qs else q # upsert_point p qs)"

fun batch_points :: "string list \<Rightarrow> vector list \<Rightarrow> document list \<Rightarrow> point list" where
  "batch_points (i # is) (v # vs) (d # ds) =
     \<lparr>pid = i, pvector = v, ppayload = payload_of_document d\<rparr> # batch_points is vs ds"
| "batch_points _ _ _ = []"

fun update_collection :: "string \<Rightarrow> (collection \<Rightarrow> collection) \<Rightarrow> store \<Rightarrow> store" where
  "update_collection name f [] = []"
| "update_collection name f (e # es) =
     (if fst e = name then (name, f (snd e)) # es else e # update_collection name f es)"

definition store_upsert :: "string \<Rightarrow> batch \<Rightarrow> store \<Rightarrow> (error + unit) \<times> store" where
  "store_upsert name b s =
     (case map_of s name of
        None \<Rightarrow> (Inl (ServiceError ''collection not found''), s)
      | Some col \<Rightarrow>
          if length (vectors b) \<noteq> length (ids b) \<or> length (payloads b) \<noteq> length (ids b)
          then (Inl (ServiceError ''batch fields differ in length''), s)
          else if list_ex (\<lambda>v. length v \<noteq> vp_size (c_params col)) (vectors b)
          then (Inl (ServiceError ''wrong vector dimension''), s)
          else
            (Inr (),
             update_collection name
               (\<lambda>cl. cl\<lparr>c_points :=
                  fold upsert_point (batch_points (ids b) (vectors b) (payloads b)) (c_points cl)\<rparr>)
               s))"

definition scored :: "(vector \<Rightarrow> vector \<Rightarrow> real) \<Rightarrow> vector \<Rightarrow> point \<Rightarrow> scored_point" where
  "scored sim q p = \<lparr>sp_id = pid p, score = sim q (pvector p), payload = Some (ppayload p)\<rparr>"

definition store_search ::
  "(distance \<Rightarrow> vector \<Rightarrow> vector \<Rightarrow> real) \<Rightarrow> string \<Rightarrow> vector \<Rightarrow> qfilter \<Rightarrow> int \<Rightarrow>
     search_params \<Rightarrow> store \<Rightarrow> (error + scored_point option list) \<times> store" where
  "store_search sim name q flt limit sp s =
     (case map_of s name of
        None \<Rightarrow> (Inl (ServiceError ''collection not found''), s)
      | Some col \<Rightarrow>
          if limit < 1 then (Inl (ServiceError ''limit must be positive''), s)
          else
            (Inr (map Some
               (take (nat limit)
                  (sort_key (\<lambda>m. - score m)
                     (map (scored (sim (vp_distance (c_params col))) q) (c_points col))))), s))"

definition store_env ::
  "(string list \<Rightarrow> error + vector list) \<Rightarrow> (string \<Rightarrow> error + qfilter) \<Rightarrow> (string \<Rightarrow> string) \<Rightarrow>
     (distance \<Rightarrow> vector \<Rightarrow> vector \<Rightarrow> real) \<Rightarrow> store env" where
  "store_env emb parse h sim =
     \<lparr>embedding_fn = emb,
      filter_from_json = parse,
      content_hash = h,
      client_get_collections = store_get_collections,
      client_get_collection = store_get_collection,
      client_delete_collection = store_delete_collection,
      client_recreate_collection = store_recreate_collection,
      client_upsert = store_upsert,
      client_search = store_search sim\<rparr>"

definition store_points :: "store \<Rightarrow> string \<Rightarrow> point list" where
  "store_points s name = (case map_of s name of None \<Rightarrow> [] | Some col \<Rightarrow> c_points col)"

text \<open>
  The contract of \<open>client.search\<close> that the adapter relies on: the client returns no
  more matches than the limit it is given.
\<close>

definition honours_limit :: "'s env \<Rightarrow> bool" where
  "honours_limit c =
     (\<forall>cn q flt k sp s.
        case fst (client_search c cn q flt k sp s) of
          Inl e \<Rightarrow> True
        | Inr ms \<Rightarrow> int (length ms) \<le> k)"

text \<open>
  The contract of \<open>client.get_collection\<close> that the assertions of
  \<open>create_collection\<close> rely on: a collection is created with a single vector per
  point, so the vector count that the client reports of a collection is its point count.
\<close>

definition one_vector_per_point :: "'s env \<Rightarrow> bool" where
  "one_vector_per_point c =
     (\<forall>name s.
        case fst (client_get_collection c name s) of
          Inl e \<Rightarrow> True
        | Inr info \<Rightarrow> vectors_count info = points_count info)"

subsection \<open>A small installation\<close>

text \<open>
  The scenario of the spec: embedding dimension 3, a collection "docs", one document
  "hello". The embedding sends a text to a vector of its length and two constants, the
  hash is the identity, the similarity is the dot product.
\<close>

definition example_embedding :: "string list \<Rightarrow> error + vector list" where
  "example_embedding texts = Inr (map (\<lambda>t. [real (length t), 1, 0]) texts)"

definition dot_product :: "distance \<Rightarrow> vector \<Rightarrow> vector \<Rightarrow> real" where
  "dot_product d q v = sum_list (map (\<lambda>p. fst p * snd p) (zip q v))"

definition example_env :: "store env" where
  "example_env =
     store_env example_embedding (\<lambda>j. Inr (JsonFilter j)) (\<lambda>t. t) dot_product"

definition example_world :: "store world" where
  "example_world =
     \<lparr>collection_name = None, distance = Cosine, embedding_dim = 3, debug = False,
      logger_level = 30, client_state = [], trace = []\<rparr>"

definition hello :: document where
  "hello = \<lparr>content = ''hello'', metadata = []\<rparr>"

definition hi :: document where
  "hi = \<lparr>content = ''hi'', metadata = [(''source'', ''a.txt'')]\<rparr>"

definition hello_again :: document where
  "hello_again = \<lparr>content = ''hello'', metadata = [(''source'', ''b.txt'')]\<rparr>"

text \<open>A collection that holds the document "hello".\<close>

definition greeting :: collection where
  "greeting =
     \<lparr>c_params = \<lparr>vp_size = 3, vp_distance = Cosine\<rparr>, c_status = Green,
      c_points = [\<lparr>pid = ''hello'', pvector = [5, 1, 0], ppayload = [(''content'', ''hello'')]\<rparr>]\<rparr>"



text \<open>
  A service that acknowledges a request to recreate a collection and leaves its
  collections as they are. What it reports of a collection is what it holds.
\<close>

definition keep_collection :: "string \<Rightarrow> vector_params \<Rightarrow> store \<Rightarrow> (error + unit) \<times> store" where
  "keep_collection name params s = (Inr (), s)"

definition stale_env :: "store env" where
  "stale_env = example_env\<lparr>client_recreate_collection := keep_collection\<rparr>"

subsection \<open>Relations used in the statements\<close>

text \<open>
  A returned pair belongs to a match: its document is the one built from the match's
  payload, its score is the match's score.
\<close>

definition match_pair :: "scored_point \<Rightarrow> document \<times> real \<Rightarrow> bool" where
  "match_pair m p = (document_of_payload (payload m) = Inr (fst p) \<and> snd p = score m)"

text \<open>
  The points hold a batch of documents: under the identifier of every document of the
  batch a point is found, and its payload is that of a document of the batch with that
  identifier.
\<close>

definition stored_from :: "'s env \<Rightarrow> document list \<Rightarrow> point list \<Rightarrow> bool" where
  "stored_from c ds pts =
     list_all
       (\<lambda>d. case find (\<lambda>q. pid q = unique_hash_id c d) pts of
              None \<Rightarrow> False
            | Some p \<Rightarrow>
                list_ex
                  (\<lambda>d'. unique_hash_id c d' = unique_hash_id c d \<and>
                        ppayload p = payload_of_document d')
                  ds)
       ds"

section \<open>Properties\<close>

lemmas adapter_defs =
  similar_texts_with_scores_def add_documents_def create_collection_def set_collection_def
  clear_empty_collections_def list_collections_def delete_collection_def call_embedding_fn_def
  emit_def call_client_def unique_hash_id_def payload_of_document_def shape_results_def
  document_of_payload_def show_if_debug_def max_score_def Let_def

lemmas store_defs =
  store_env_def store_recreate_collection_def store_get_collection_def
  store_get_collections_def store_delete_collection_def store_upsert_def store_search_def
  remove_collection_def scored_def store_points_def new_collection_def

lemmas example_defs =
  example_env_def example_world_def hello_def example_embedding_def dot_product_def

subsection \<open>Ingestion and search without an active collection\<close>

text \<open>
  Counterexample to C1 as stated: \<open>add_documents\<close> asks the embedding provider for
  the vectors in its first line and looks at \<open>config.collection_name\<close> only
  afterwards. With no collection set, the trace of the call holds the call to the
  embedding provider.
\<close>

theorem add_documents_unset_collection_counterexample:
  "collection_name example_world = None \<and>
   trace example_world = [] \<and>
   trace (snd (add_documents example_env [hello] example_world)) = [EmbeddingCall [''hello'']]"
  by (simp add: adapter_defs store_defs example_defs)

text \<open>
  C1 (as amended): for every call to \<open>add_documents\<close> with \<open>config.collection_name\<close>
  unset, the embedding provider is called once, with the contents of the documents, and
  nothing else leaves the adapter: no client call, so no upsert, is made and the state
  of the service is as before. The call fails: with the error of the embedding provider
  if that one raises, with the value error "No collection name set, cannot ingest docs"
  otherwise.
\<close>

theorem add_documents_unset_collection:
  "collection_name w = None \<Longrightarrow>
   snd (add_documents c docs w) = emit (EmbeddingCall (map content docs)) w \<and>
   fst (add_documents c docs w) =
     (case embedding_fn c (map content docs) of
        Inl e \<Rightarrow> Inl e
      | Inr vecs \<Rightarrow> Inl (ValueError ''No collection name set, cannot ingest docs''))"
  by (simp add: add_documents_def call_embedding_fn_def emit_def split: sum.splits)

theorem add_documents_unset_collection_witness:
  "collection_name example_world = None \<and>
   snd (add_documents example_env [hello] example_world) =
     example_world\<lparr>trace := [EmbeddingCall [''hello'']]\<rparr> \<and>
   fst (add_documents example_env [hello] example_world) =
     Inl (ValueError ''No collection name set, cannot ingest docs'')"
  using add_documents_unset_collection [of example_world example_env "[hello]"]
  by (simp add: emit_def store_defs example_defs)




subsection \<open>The shape of search results\<close>

lemma scores_of_Inr:
  "scores_of sr = Inr ss \<Longrightarrow> \<exists>ms. sr = map Some ms \<and> ss = map score ms"
proof (induction sr arbitrary: ss rule: scores_of.induct)
  case 1
  then show ?case by simp
next
  case (2 ms)
  then show ?case by simp
next
  case (3 m ms)
  from "3.prems" obtain ss' where s: "scores_of ms = Inr ss'" and ss: "ss = score m # ss'"
    by (auto split: sum.splits)
  from "3.IH" [OF s] obtain ms' where "ms = map Some ms'" "ss' = map score ms'"
    by blast
  with ss have "Some m # ms = map Some (m # ms') \<and> ss = map score (m # ms')"
    by simp
  then show ?case by (rule exI)
qed

lemma docs_of_Inr:
  "docs_of (map Some ms) = Inr ds \<Longrightarrow>
   list_all2 (\<lambda>m d. document_of_payload (payload m) = Inr d) ms ds"
  by (induction ms arbitrary: ds) (auto split: sum.splits)

lemma zip_pairs:
  "list_all2 (\<lambda>m d. document_of_payload (payload m) = Inr d) ms ds \<Longrightarrow>
   list_all2 match_pair ms (zip ds (map score ms))"
  by (induction ms ds rule: list_all2_induct) (auto simp: match_pair_def)

lemma shape_results_pairs:
  assumes "shape_results t sr w = (Inr result, w')"
  shows "\<exists>ms. sr = map Some ms \<and> list_all2 match_pair ms result"
proof -
  from assms obtain ss where ss: "scores_of sr = Inr ss"
    by (auto simp: shape_results_def split: sum.splits)
  then obtain ms where ms: "sr = map Some ms" "ss = map score ms"
    using scores_of_Inr by blast
  from assms ss obtain ds where ds: "docs_of sr = Inr ds"
    by (auto simp: shape_results_def split: sum.splits)
  with ms have all: "list_all2 (\<lambda>m d. document_of_payload (payload m) = Inr d) ms ds"
    using docs_of_Inr by blast
  have "result = zip ds (map score ms)"
  proof (cases "ds = []")
    case True
    with assms ss ds show ?thesis
      by (simp add: shape_results_def)
  next
    case False
    with assms ss ds ms show ?thesis
      by (auto simp: shape_results_def Let_def split: sum.splits if_splits)
  qed
  with all ms show ?thesis
    using zip_pairs by blast
qed

lemma similar_texts_with_scores_Inr:
  assumes "similar_texts_with_scores c t k where_json w = (Inr result, w')"
  shows "\<exists>cn q qs flt sr s'.
           collection_name w = Some cn \<and>
           embedding_fn c [t] = Inr (q # qs) \<and>
           (case where_json of None \<Rightarrow> Inr EmptyFilter | Some j \<Rightarrow> filter_from_json c j) = Inr flt \<and>
           client_search c cn q flt k \<lparr>hnsw_ef = 128, exact = False\<rparr> (client_state w) = (Inr sr, s') \<and>
           shape_results t sr
             (emit (Search cn q flt k \<lparr>hnsw_ef = 128, exact = False\<rparr>)
                (emit (EmbeddingCall [t]) w\<lparr>client_state := s'\<rparr>)) = (Inr result, w')"
  using assms
  by (auto simp: similar_texts_with_scores_def call_embedding_fn_def call_client_def emit_def Let_def
      split: sum.splits list.splits option.splits prod.splits)

text \<open>
  C2: whenever \<open>similar_texts_with_scores\<close> returns, the client's search on the active
  collection has answered with a list of matches, none of them \<open>None\<close>, and the
  returned list is, position by position and in the order of the matches, the pair of
  the document built from the match's payload and the match's score.
\<close>

theorem similar_texts_with_scores_pairs:
  assumes "similar_texts_with_scores c text k where_json w = (Inr result, w')"
  shows "\<exists>cn q qs flt ms s'.
           collection_name w = Some cn \<and>
           embedding_fn c [text] = Inr (q # qs) \<and>
           (case where_json of None \<Rightarrow> Inr EmptyFilter | Some j \<Rightarrow> filter_from_json c j) = Inr flt \<and>
           client_search c cn q flt k \<lparr>hnsw_ef = 128, exact = False\<rparr> (client_state w) =
             (Inr (map Some ms), s') \<and>
           list_all2 match_pair ms result"
proof -
  from similar_texts_with_scores_Inr [OF assms] obtain cn q qs flt sr s' where
    a: "collection_name w = Some cn" "embedding_fn c [text] = Inr (q # qs)"
       "(case where_json of None \<Rightarrow> Inr EmptyFilter | Some j \<Rightarrow> filter_from_json c j) = Inr flt"
       "client_search c cn q flt k \<lparr>hnsw_ef = 128, exact = False\<rparr> (client_state w) = (Inr sr, s')"
    and b: "shape_results text sr
             (emit (Search cn q flt k \<lparr>hnsw_ef = 128, exact = False\<rparr>)
                (emit (EmbeddingCall [text]) w\<lparr>client_state := s'\<rparr>)) = (Inr result, w')"
    by blast
  from shape_results_pairs [OF b] obtain ms where "sr = map Some ms" "list_all2 match_pair ms result"
    by blast
  with a show ?thesis by blast
qed
theorem similar_texts_with_scores_pairs_witness:
  "fst (similar_texts_with_scores example_env ''hello'' 2 None
          (snd (add_documents example_env [hi, hello]
             (snd (create_collection example_env ''docs'' example_world))))) =
     Inr [(hello, 26), (hi, 11)] \<and>
   (\<exists>ms. map sp_id ms = [''hello'', ''hi''] \<and> list_all2 match_pair ms [(hello, 26), (hi, 11)])"
proof -
  define w where "w = snd (add_documents example_env [hi, hello]
             (snd (create_collection example_env ''docs'' example_world)))"
  have f: "fst (similar_texts_with_scores example_env ''hello'' 2 None w) =
      Inr [(hello, 26), (hi, 11)]"
    by (simp add: w_def adapter_defs store_defs example_defs hi_def)
  then have r: "similar_texts_with_scores example_env ''hello'' 2 None w =
      (Inr [(hello, 26), (hi, 11)], snd (similar_texts_with_scores example_env ''hello'' 2 None w))"
    by (metis prod.collapse)
  have s: "client_search example_env ''docs'' [5, 1, 0] EmptyFilter 2
             \<lparr>hnsw_ef = 128, exact = False\<rparr> (client_state w) =
           (Inr (map Some
              [\<lparr>sp_id = ''hello'', score = 26, payload = Some [(''content'', ''hello'')]\<rparr>,
               \<lparr>sp_id = ''hi'', score = 11,
                 payload = Some [(''content'', ''hi''), (''source'', ''a.txt'')]\<rparr>]),
            client_state w)"
    by (simp add: w_def adapter_defs store_defs example_defs hi_def)
  have e: "embedding_fn example_env [''hello''] = Inr [[5, 1, 0]]"
    by (simp add: store_defs example_defs)
  have n: "collection_name w = Some ''docs''"
    by (simp add: w_def adapter_defs store_defs example_defs hi_def)
  from similar_texts_with_scores_pairs [OF r] obtain cn q qs flt ms s' where
    a: "collection_name w = Some cn" "embedding_fn example_env [''hello''] = Inr (q # qs)"
       "(case None of None \<Rightarrow> Inr EmptyFilter | Some j \<Rightarrow> filter_from_json example_env j) = Inr flt"
       "client_search example_env cn q flt 2 \<lparr>hnsw_ef = 128, exact = False\<rparr> (client_state w) =
         (Inr (map Some ms), s')"
       "list_all2 match_pair ms [(hello, 26), (hi, 11)]"
    by blast
  from a(1) n a(2) e a(3) have "cn = ''docs''" "q = [5, 1, 0]" "flt = EmptyFilter"
    by simp_all
  with a(4) s have "map Some ms = map Some
              [\<lparr>sp_id = ''hello'', score = 26, payload = Some [(''content'', ''hello'')]\<rparr>,
               \<lparr>sp_id = ''hi'', score = 11,
                 payload = Some [(''content'', ''hi''), (''source'', ''a.txt'')]\<rparr>]"
    by simp
  then have "map sp_id ms = [''hello'', ''hi'']"
    by (simp add: map_eq_Cons_conv)  
  with a(5) have "\<exists>ms. map sp_id ms = [''hello'', ''hi''] \<and>
      list_all2 match_pair ms [(hello, 26), (hi, 11)]"
    by (intro exI [of _ ms] conjI)
  with f show ?thesis
    unfolding w_def by (rule conjI)
qed

lemma honours_limit_store_env: "honours_limit (store_env emb parse h sim)"
  by (auto simp: honours_limit_def store_env_def store_search_def split: option.splits)

text \<open>
  C6: the adapter passes \<open>k\<close> to the client as the limit of the search, so with a
  client that returns no more matches than its limit, \<open>similar_texts_with_scores\<close>
  returns at most \<open>k\<close> pairs. When the search answers with no match, the call returns
  the empty list, raising nothing, and its last act is the warning "No matches found".
\<close>

theorem similar_texts_with_scores_at_most_k:
  assumes "honours_limit c"
  shows "(\<forall>result w'. similar_texts_with_scores c text k where_json w = (Inr result, w') \<longrightarrow>
            int (length result) \<le> k) \<and>
         (\<forall>cn q qs flt s'.
            collection_name w = Some cn \<longrightarrow>
            embedding_fn c [text] = Inr (q # qs) \<longrightarrow>
            (case where_json of None \<Rightarrow> Inr EmptyFilter | Some j \<Rightarrow> filter_from_json c j) = Inr flt \<longrightarrow>
            client_search c cn q flt k \<lparr>hnsw_ef = 128, exact = False\<rparr> (client_state w) = (Inr [], s') \<longrightarrow>
            fst (similar_texts_with_scores c text k where_json w) = Inr [] \<and>
            trace (snd (similar_texts_with_scores c text k where_json w)) =
              trace w @ [EmbeddingCall [text],
                         Search cn q flt k \<lparr>hnsw_ef = 128, exact = False\<rparr>,
                         LogWarning (NoMatchesFound text)])"
proof -
  have "int (length result) \<le> k"
    if r: "similar_texts_with_scores c text k where_json w = (Inr result, w')" for result w'
  proof -
    from similar_texts_with_scores_Inr [OF r] obtain cn q flt sr s' w1 where
      s: "client_search c cn q flt k \<lparr>hnsw_ef = 128, exact = False\<rparr> (client_state w) = (Inr sr, s')"
      and b: "shape_results text sr w1 = (Inr result, w')"
      by blast
    from shape_results_pairs [OF b] obtain ms where
      ms: "sr = map Some ms" "list_all2 match_pair ms result"
      by blast
    then have "length result = length sr"
      by (simp add: list_all2_lengthD)
    moreover from assms have "int (length sr) \<le> k"
      unfolding honours_limit_def
      using s by (metis fst_conv sum.case(2))
    ultimately show ?thesis by simp
  qed
  moreover have "fst (similar_texts_with_scores c text k where_json w) = Inr [] \<and>
            trace (snd (similar_texts_with_scores c text k where_json w)) =
              trace w @ [EmbeddingCall [text],
                         Search cn q flt k \<lparr>hnsw_ef = 128, exact = False\<rparr>,
                         LogWarning (NoMatchesFound text)]"
    if "collection_name w = Some cn" "embedding_fn c [text] = Inr (q # qs)"
      "(case where_json of None \<Rightarrow> Inr EmptyFilter | Some j \<Rightarrow> filter_from_json c j) = Inr flt"
      "client_search c cn q flt k \<lparr>hnsw_ef = 128, exact = False\<rparr> (client_state w) = (Inr [], s')"
    for cn q qs flt s'
    using that
    by (simp add: similar_texts_with_scores_def call_embedding_fn_def call_client_def emit_def
        shape_results_def Let_def)
  ultimately show ?thesis by blast
qed

theorem similar_texts_with_scores_at_most_k_witness:
  "honours_limit example_env \<and>
   fst (similar_texts_with_scores example_env ''hello'' 1 None
          (snd (add_documents example_env [hello]
             (snd (create_collection example_env ''docs'' example_world))))) = Inr [(hello, 26)] \<and>
   int (length [(hello, 26::real)]) \<le> 1 \<and>
   fst (similar_texts_with_scores example_env ''hello'' 1 None
          (snd (create_collection example_env ''docs'' example_world))) = Inr [] \<and>
   trace (snd (similar_texts_with_scores example_env ''hello'' 1 None
          (snd (create_collection example_env ''docs'' example_world)))) =
     [RecreateCollection ''docs'' \<lparr>vp_size = 3, vp_distance = Cosine\<rparr>,
      GetCollection ''docs'',
      EmbeddingCall [''hello''],
      Search ''docs'' [5, 1, 0] EmptyFilter 1 \<lparr>hnsw_ef = 128, exact = False\<rparr>,
      LogWarning (NoMatchesFound ''hello'')]"
proof -
  have h: "honours_limit example_env"
    unfolding example_env_def by (rule honours_limit_store_env)
  have r: "similar_texts_with_scores example_env ''hello'' 1 None
          (snd (add_documents example_env [hello]
             (snd (create_collection example_env ''docs'' example_world)))) =
        (Inr [(hello, 26)], snd (similar_texts_with_scores example_env ''hello'' 1 None
          (snd (add_documents example_env [hello]
             (snd (create_collection example_env ''docs'' example_world))))))"
    by (simp add: adapter_defs store_defs example_defs)
  have e: "collection_name (snd (create_collection example_env ''docs'' example_world)) = Some ''docs''"
      "embedding_fn example_env [''hello''] = Inr ([5, 1, 0] # [])"
      "client_search example_env ''docs'' [5, 1, 0] EmptyFilter 1 \<lparr>hnsw_ef = 128, exact = False\<rparr>
         (client_state (snd (create_collection example_env ''docs'' example_world))) =
       (Inr [], [(''docs'', \<lparr>c_params = \<lparr>vp_size = 3, vp_distance = Cosine\<rparr>,
                              c_status = Green, c_points = []\<rparr>)])"
      "trace (snd (create_collection example_env ''docs'' example_world)) =
         [RecreateCollection ''docs'' \<lparr>vp_size = 3, vp_distance = Cosine\<rparr>, GetCollection ''docs'']"
    by (simp_all add: adapter_defs store_defs example_defs)
  note t = similar_texts_with_scores_at_most_k [OF h, of "''hello''" 1 None]
  from t [of "snd (add_documents example_env [hello]
             (snd (create_collection example_env ''docs'' example_world)))"] r
  have "int (length [(hello, 26::real)]) \<le> 1"
    by blast
  moreover from t [of "snd (create_collection example_env ''docs'' example_world)"] e
  have "fst (similar_texts_with_scores example_env ''hello'' 1 None
          (snd (create_collection example_env ''docs'' example_world))) = Inr [] \<and>
   trace (snd (similar_texts_with_scores example_env ''hello'' 1 None
          (snd (create_collection example_env ''docs'' example_world)))) =
     [RecreateCollection ''docs'' \<lparr>vp_size = 3, vp_distance = Cosine\<rparr>,
      GetCollection ''docs'',
      EmbeddingCall [''hello''],
      Search ''docs'' [5, 1, 0] EmptyFilter 1 \<lparr>hnsw_ef = 128, exact = False\<rparr>,
      LogWarning (NoMatchesFound ''hello'')]"
    by simp
  moreover from r have "fst (similar_texts_with_scores example_env ''hello'' 1 None
          (snd (add_documents example_env [hello]
             (snd (create_collection example_env ''docs'' example_world))))) = Inr [(hello, 26)]"
    by (metis fst_conv)
  ultimately show ?thesis
    using h by blast
qed

subsection \<open>Creating a collection\<close>

lemma create_collection_name:
  "collection_name (snd (create_collection c name w)) = Some name"
  by (simp add: create_collection_def call_client_def emit_def Let_def
      split: prod.splits sum.splits)




text \<open>
  C3, at the input where the code departs from it: with \<open>config.distance\<close> set to
  Euclid, \<open>create_collection\<close> still asks the client for a collection under the
  cosine metric, and that is what the service creates. The vector size is the embedding
  dimension.
\<close>

theorem create_collection_ignores_config_distance:
  "distance (example_world\<lparr>distance := Euclid\<rparr>) = Euclid \<and>
   fst (create_collection example_env ''docs'' (example_world\<lparr>distance := Euclid\<rparr>)) = Inr () \<and>
   trace (snd (create_collection example_env ''docs'' (example_world\<lparr>distance := Euclid\<rparr>))) =
     [RecreateCollection ''docs'' \<lparr>vp_size = 3, vp_distance = Cosine\<rparr>, GetCollection ''docs''] \<and>
   client_state (snd (create_collection example_env ''docs'' (example_world\<lparr>distance := Euclid\<rparr>))) =
     [(''docs'', \<lparr>c_params = \<lparr>vp_size = 3, vp_distance = Cosine\<rparr>,
                  c_status = Green, c_points = []\<rparr>)]"
  by (simp add: adapter_defs store_defs example_defs)

subsection \<open>Sweeping empty collections\<close>

lemma map_of_middle:
  "name \<notin> fst ` set pre \<Longrightarrow> map_of (pre @ (name, col) # rest) name = Some col"
  by (induction pre) auto

lemma remove_collection_middle:
  "distinct (map fst (pre @ (name, col) # rest)) \<Longrightarrow>
   remove_collection name (pre @ (name, col) # rest) = pre @ rest"
proof -
  assume d: "distinct (map fst (pre @ (name, col) # rest))"
  then have "\<forall>e \<in> set pre. fst e \<noteq> name" "\<forall>e \<in> set rest. fst e \<noteq> name"
    by auto
  then have "filter (\<lambda>e. fst e \<noteq> name) pre = pre" "filter (\<lambda>e. fst e \<noteq> name) rest = rest"
    by (simp_all add: filter_id_conv)
  then show ?thesis
    by (simp add: remove_collection_def)
qed

lemma clear_loop_store:
  "distinct (map fst (pre @ rest)) \<Longrightarrow> client_state w = pre @ rest \<Longrightarrow>
   fst (clear_loop (store_env emb parse h sim) (map fst rest) n w) =
     Inr (n + length (filter (\<lambda>e. length (c_points (snd e)) = 0) rest)) \<and>
   client_state (snd (clear_loop (store_env emb parse h sim) (map fst rest) n w)) =
     pre @ filter (\<lambda>e. length (c_points (snd e)) \<noteq> 0) rest"
proof (induction rest arbitrary: pre n w)
  case Nil
  then show ?case by simp
next
  case (Cons e rest)
  obtain name col where e: "e = (name, col)" by (cases e)
  from Cons.prems e have notin: "name \<notin> fst ` set pre"
    by auto
  have look: "map_of (client_state w) name = Some col"
    using Cons.prems(2) e map_of_middle [OF notin] by simp
  show ?case
  proof (cases "c_points col = []")
    case True
    define w2 where "w2 = emit (DeleteCollection name)
       ((emit (GetCollection name) w)\<lparr>client_state := pre @ rest\<rparr>)"
    have st: "client_state w2 = pre @ rest"
      by (simp add: w2_def emit_def)
    have d: "distinct (map fst (pre @ rest))"
      using Cons.prems(1) by simp
    have step: "clear_loop (store_env emb parse h sim) (map fst (e # rest)) n w =
        clear_loop (store_env emb parse h sim) (map fst rest) (n + 1) w2"
    proof -
      have rm: "remove_collection name (client_state w) = pre @ rest"
        using Cons.prems e remove_collection_middle [of pre name col rest] by simp
      show ?thesis
        using look True rm
        by (simp add: e call_client_def store_env_def store_get_collection_def
            store_delete_collection_def emit_def w2_def)
    qed
    from Cons.IH [OF d st, of "n + 1"] step True e show ?thesis
      by simp
  next
    case False
    define w1 where "w1 = emit (GetCollection name) w"
    have st: "client_state w1 = (pre @ [e]) @ rest"
      using Cons.prems(2) by (simp add: w1_def emit_def)
    have d: "distinct (map fst ((pre @ [e]) @ rest))"
      using Cons.prems(1) by simp
    have step: "clear_loop (store_env emb parse h sim) (map fst (e # rest)) n w =
        clear_loop (store_env emb parse h sim) (map fst rest) n w1"
      using look False
      by (simp add: e call_client_def store_env_def store_get_collection_def emit_def w1_def)
    from Cons.IH [OF d st, of n] step False e show ?thesis
      by simp
  qed
qed

text \<open>
  C5: on a service whose collections have distinct names, \<open>clear_empty_collections\<close>
  returns the number of collections that held no point before the call, and the service
  is left with the collections that held at least one, each as it was and in the order
  they had.
\<close>

theorem clear_empty_collections_store:
  assumes "distinct (map fst (client_state w))"
  shows "fst (clear_empty_collections (store_env emb parse h sim) w) =
           Inr (length (filter (\<lambda>e. length (c_points (snd e)) = 0) (client_state w))) \<and>
         client_state (snd (clear_empty_collections (store_env emb parse h sim) w)) =
           filter (\<lambda>e. length (c_points (snd e)) \<noteq> 0) (client_state w)"
proof -
  define w1 where "w1 = emit GetCollections w"
  have st: "client_state w1 = [] @ client_state w"
    by (simp add: w1_def emit_def)
  have step: "clear_empty_collections (store_env emb parse h sim) w =
      clear_loop (store_env emb parse h sim) (map fst (client_state w)) 0 w1"
    by (simp add: clear_empty_collections_def list_collections_def call_client_def
        store_env_def store_get_collections_def emit_def w1_def)
  from clear_loop_store [of "[]" "client_state w" w1 emb parse h sim 0] assms st step
  show ?thesis by simp
qed

theorem clear_empty_collections_store_witness:
  "distinct (map fst [(''a'', (new_collection \<lparr>vp_size = 3, vp_distance = Cosine\<rparr>)), (''docs'', greeting), (''b'', (new_collection \<lparr>vp_size = 3, vp_distance = Cosine\<rparr>))]) \<and>
   fst (clear_empty_collections example_env
          (example_world\<lparr>client_state :=
             [(''a'', (new_collection \<lparr>vp_size = 3, vp_distance = Cosine\<rparr>)), (''docs'', greeting), (''b'', (new_collection \<lparr>vp_size = 3, vp_distance = Cosine\<rparr>))]\<rparr>)) = Inr 2 \<and>
   client_state (snd (clear_empty_collections example_env
          (example_world\<lparr>client_state :=
             [(''a'', (new_collection \<lparr>vp_size = 3, vp_distance = Cosine\<rparr>)), (''docs'', greeting), (''b'', (new_collection \<lparr>vp_size = 3, vp_distance = Cosine\<rparr>))]\<rparr>))) =
     [(''docs'', greeting)]"
proof -
  have d: "distinct (map fst (client_state (example_world\<lparr>client_state :=
             [(''a'', (new_collection \<lparr>vp_size = 3, vp_distance = Cosine\<rparr>)), (''docs'', greeting), (''b'', (new_collection \<lparr>vp_size = 3, vp_distance = Cosine\<rparr>))]\<rparr>)))"
    by simp
  from clear_empty_collections_store [OF d, of example_embedding "\<lambda>j. Inr (JsonFilter j)" "\<lambda>t. t" dot_product]
  show ?thesis
    by (simp add: example_env_def new_collection_def greeting_def)
qed

subsection \<open>Choosing the active collection\<close>

lemma remove_collection_absent:
  "name \<notin> fst ` set s \<Longrightarrow> remove_collection name s = s"
  by (auto simp: remove_collection_def filter_id_conv)

lemma map_of_last:
  "name \<notin> fst ` set s \<Longrightarrow> map_of (s @ [(name, col)]) name = Some col"
  using map_of_middle [of name s col "[]"] by simp

lemma create_collection_store_absent:
  assumes "name \<notin> fst ` set (client_state w)"
  shows "fst (create_collection (store_env emb parse h sim) name w) = Inr () \<and>
         client_state (snd (create_collection (store_env emb parse h sim) name w)) =
           client_state w @ [(name, new_collection \<lparr>vp_size = embedding_dim w, vp_distance = Cosine\<rparr>)]"
  using assms map_of_last [of name "client_state w"]
  by (simp add: create_collection_def call_client_def emit_def Let_def store_env_def
      store_recreate_collection_def store_get_collection_def remove_collection_absent
      new_collection_def)

text \<open>
  C8: \<open>set_collection name\<close> records \<open>name\<close> as the active collection name. When
  the service has a collection of that name, the call asks for the list of collections
  and does nothing else: the service, and with it the stored data, is as before. When it
  has none, the call returns with a new, empty collection of that name added, its vector
  size the embedding dimension.
\<close>

theorem set_collection_store:
  "collection_name (snd (set_collection (store_env emb parse h sim) name w)) = Some name \<and>
   (name \<in> fst ` set (client_state w) \<longrightarrow>
      set_collection (store_env emb parse h sim) name w =
        (Inr (), w\<lparr>collection_name := Some name, trace := trace w @ [GetCollections]\<rparr>)) \<and>
   (name \<notin> fst ` set (client_state w) \<longrightarrow>
      fst (set_collection (store_env emb parse h sim) name w) = Inr () \<and>
      client_state (snd (set_collection (store_env emb parse h sim) name w)) =
        client_state w @ [(name, new_collection \<lparr>vp_size = embedding_dim w, vp_distance = Cosine\<rparr>)])"
proof -
  define w1 where "w1 = w\<lparr>collection_name := Some name, trace := trace w @ [GetCollections]\<rparr>"
  have ls: "list_collections (store_env emb parse h sim) (w\<lparr>collection_name := Some name\<rparr>) =
      (Inr (map fst (client_state w)), w1)"
    by (simp add: list_collections_def call_client_def store_env_def store_get_collections_def
        emit_def w1_def)
  have present: "set_collection (store_env emb parse h sim) name w = (Inr (), w1)"
    if "name \<in> fst ` set (client_state w)"
    using that ls by (simp add: set_collection_def Let_def)
  have absent: "set_collection (store_env emb parse h sim) name w =
      create_collection (store_env emb parse h sim) name w1"
    if "name \<notin> fst ` set (client_state w)"
    using that ls by (simp add: set_collection_def Let_def)
  have st: "client_state w1 = client_state w" "embedding_dim w1 = embedding_dim w"
    by (simp_all add: w1_def)
  have "collection_name (snd (set_collection (store_env emb parse h sim) name w)) = Some name"
  proof (cases "name \<in> fst ` set (client_state w)")
    case True
    then show ?thesis by (simp add: present w1_def)
  next
    case False
    then show ?thesis by (simp add: absent create_collection_name)
  qed
  moreover have "fst (set_collection (store_env emb parse h sim) name w) = Inr () \<and>
      client_state (snd (set_collection (store_env emb parse h sim) name w)) =
        client_state w @ [(name, new_collection \<lparr>vp_size = embedding_dim w, vp_distance = Cosine\<rparr>)]"
    if a: "name \<notin> fst ` set (client_state w)"
    using create_collection_store_absent [of name w1 emb parse h sim] a
    by (simp add: absent st)
  ultimately show ?thesis
    using present by (simp add: w1_def)
qed

theorem set_collection_store_witness:
  "set_collection example_env ''docs'' (example_world\<lparr>client_state := [(''docs'', greeting)]\<rparr>) =
     (Inr (), example_world\<lparr>collection_name := Some ''docs'',
                            client_state := [(''docs'', greeting)],
                            trace := [GetCollections]\<rparr>) \<and>
   fst (set_collection example_env ''notes''
          (example_world\<lparr>client_state := [(''docs'', greeting)]\<rparr>)) = Inr () \<and>
   client_state (snd (set_collection example_env ''notes''
          (example_world\<lparr>client_state := [(''docs'', greeting)]\<rparr>))) =
     [(''docs'', greeting), (''notes'', (new_collection \<lparr>vp_size = 3, vp_distance = Cosine\<rparr>))]"
  using set_collection_store
      [of example_embedding "\<lambda>j. Inr (JsonFilter j)" "\<lambda>t. t" dot_product "''docs''"
          "example_world\<lparr>client_state := [(''docs'', greeting)]\<rparr>"]
    set_collection_store
      [of example_embedding "\<lambda>j. Inr (JsonFilter j)" "\<lambda>t. t" dot_product "''notes''"
          "example_world\<lparr>client_state := [(''docs'', greeting)]\<rparr>"]
  by (simp add: example_env_def example_world_def)

subsection \<open>The collection after it is created\<close>

lemma one_vector_per_point_store_env: "one_vector_per_point (store_env emb parse h sim)"
  by (simp add: one_vector_per_point_def store_env_def store_get_collection_def
      split: option.splits)

lemma map_of_recreated:
  "map_of (remove_collection name s @ [(name, col)]) name = Some col"
proof -
  have "name \<notin> fst ` set (remove_collection name s)"
    by (auto simp: remove_collection_def)
  then show ?thesis by (rule map_of_last)
qed

lemma create_collection_store:
  "fst (create_collection (store_env emb parse h sim) name w) = Inr () \<and>
   client_state (snd (create_collection (store_env emb parse h sim) name w)) =
     remove_collection name (client_state w) @
       [(name, new_collection \<lparr>vp_size = embedding_dim w, vp_distance = Cosine\<rparr>)]"
  using map_of_recreated [of name "client_state w"]
  by (simp add: create_collection_def call_client_def emit_def Let_def store_env_def
      store_recreate_collection_def store_get_collection_def new_collection_def)

text \<open>
  C4: on the service, whatever it held before, \<open>create_collection name\<close> returns
  and the collection of that name is then healthy and holds no point. With any client
  that reports one vector per point: a \<open>create_collection name\<close> that returns has
  been told by the client, right after the recreation, that the collection is healthy
  and that its point count is zero; and when the client reports another status or a
  point count that is not zero, the call ends in an assertion error, not in a value
  error.
\<close>

theorem create_collection_postcondition:
  "(fst (create_collection (store_env emb parse h sim) name w0) = Inr () \<and>
    fst (store_get_collection name
           (client_state (snd (create_collection (store_env emb parse h sim) name w0)))) =
      Inr \<lparr>status = Green, points_count = 0, vectors_count = 0\<rparr> \<and>
    store_points (client_state (snd (create_collection (store_env emb parse h sim) name w0))) name
      = []) \<and>
   (one_vector_per_point c \<longrightarrow>
      (fst (create_collection c name w) = Inr () \<longrightarrow>
         (\<exists>s1 info s2.
            client_recreate_collection c name \<lparr>vp_size = embedding_dim w, vp_distance = Cosine\<rparr>
              (client_state w) = (Inr (), s1) \<and>
            client_get_collection c name s1 = (Inr info, s2) \<and>
            status info = Green \<and> points_count info = 0 \<and>
            client_state (snd (create_collection c name w)) = s2)) \<and>
      (\<forall>s1 info s2.
         client_recreate_collection c name \<lparr>vp_size = embedding_dim w, vp_distance = Cosine\<rparr>
           (client_state w) = (Inr (), s1) \<longrightarrow>
         client_get_collection c name s1 = (Inr info, s2) \<longrightarrow>
         status info \<noteq> Green \<or> points_count info \<noteq> 0 \<longrightarrow>
         fst (create_collection c name w) = Inl AssertionError))"
proof -
  have on_store:
    "fst (create_collection (store_env emb parse h sim) name w0) = Inr () \<and>
     fst (store_get_collection name
           (client_state (snd (create_collection (store_env emb parse h sim) name w0)))) =
      Inr \<lparr>status = Green, points_count = 0, vectors_count = 0\<rparr> \<and>
     store_points (client_state (snd (create_collection (store_env emb parse h sim) name w0))) name
      = []"
    using map_of_recreated [of name "client_state w0"]
    by (simp add: create_collection_store store_get_collection_def store_points_def
        new_collection_def)
  have counts: "vectors_count info = points_count info"
    if "one_vector_per_point c" "client_get_collection c name s1 = (Inr info, s2)"
    for s1 info s2
  proof -
    from that(1) have "case fst (client_get_collection c name s1) of
          Inl e \<Rightarrow> True
        | Inr info \<Rightarrow> vectors_count info = points_count info"
      unfolding one_vector_per_point_def by (elim allE)
    with that(2) show ?thesis by simp
  qed
  have returns: "\<exists>s1 info s2.
            client_recreate_collection c name \<lparr>vp_size = embedding_dim w, vp_distance = Cosine\<rparr>
              (client_state w) = (Inr (), s1) \<and>
            client_get_collection c name s1 = (Inr info, s2) \<and>
            status info = Green \<and> points_count info = 0 \<and>
            client_state (snd (create_collection c name w)) = s2"
    if o: "one_vector_per_point c" and r: "fst (create_collection c name w) = Inr ()"
  proof -
    from r obtain s1 info s2 where
      a: "client_recreate_collection c name \<lparr>vp_size = embedding_dim w, vp_distance = Cosine\<rparr>
              (client_state w) = (Inr (), s1)"
         "client_get_collection c name s1 = (Inr info, s2)"
         "status info = Green" "vectors_count info = 0"
         "client_state (snd (create_collection c name w)) = s2"
      by (auto simp: create_collection_def call_client_def emit_def Let_def
          split: prod.splits sum.splits if_splits)
    from counts [OF o a(2)] a(4) have "points_count info = 0" by simp
    with a show ?thesis
      by (intro exI [of _ s1] exI [of _ info] exI [of _ s2]) simp
  qed
  have aborts: "fst (create_collection c name w) = Inl AssertionError"
    if o: "one_vector_per_point c"
      and a: "client_recreate_collection c name \<lparr>vp_size = embedding_dim w, vp_distance = Cosine\<rparr>
           (client_state w) = (Inr (), s1)"
         "client_get_collection c name s1 = (Inr info, s2)"
      and b: "status info \<noteq> Green \<or> points_count info \<noteq> 0"
    for s1 info s2
  proof -
    from counts [OF o a(2)] b have "status info \<noteq> Green \<or> vectors_count info \<noteq> 0"
      by simp
    with a show ?thesis
      by (auto simp: create_collection_def call_client_def emit_def Let_def)
  qed
  show ?thesis
  proof (intro conjI impI allI)
    show "fst (create_collection (store_env emb parse h sim) name w0) = Inr ()"
      using on_store by (elim conjE)
    show "fst (store_get_collection name
           (client_state (snd (create_collection (store_env emb parse h sim) name w0)))) =
      Inr \<lparr>status = Green, points_count = 0, vectors_count = 0\<rparr>"
      using on_store by (elim conjE)
    show "store_points (client_state (snd (create_collection (store_env emb parse h sim) name w0)))
        name = []"
      using on_store by (elim conjE)
  next
    assume "one_vector_per_point c" "fst (create_collection c name w) = Inr ()"
    then show "\<exists>s1 info s2.
            client_recreate_collection c name \<lparr>vp_size = embedding_dim w, vp_distance = Cosine\<rparr>
              (client_state w) = (Inr (), s1) \<and>
            client_get_collection c name s1 = (Inr info, s2) \<and>
            status info = Green \<and> points_count info = 0 \<and>
            client_state (snd (create_collection c name w)) = s2"
      by (rule returns)
  next
    fix s1 info s2
    assume "one_vector_per_point c"
      "client_recreate_collection c name \<lparr>vp_size = embedding_dim w, vp_distance = Cosine\<rparr>
           (client_state w) = (Inr (), s1)"
      "client_get_collection c name s1 = (Inr info, s2)"
      "status info \<noteq> Green \<or> points_count info \<noteq> 0"
    then show "fst (create_collection c name w) = Inl AssertionError"
      by (rule aborts)
  qed
qed

theorem create_collection_postcondition_witness:
  "one_vector_per_point example_env \<and>
   one_vector_per_point stale_env \<and>
   fst (create_collection example_env ''docs''
          (example_world\<lparr>client_state := [(''docs'', greeting)]\<rparr>)) = Inr () \<and>
   store_points (client_state (snd (create_collection example_env ''docs''
          (example_world\<lparr>client_state := [(''docs'', greeting)]\<rparr>)))) ''docs'' = [] \<and>
   fst (create_collection stale_env ''docs''
          (example_world\<lparr>client_state := [(''docs'', greeting)]\<rparr>)) = Inl AssertionError \<and>
   fst (create_collection stale_env ''docs''
          (example_world\<lparr>client_state :=
             [(''docs'', greeting\<lparr>c_status := Yellow, c_points := []\<rparr>)]\<rparr>)) = Inl AssertionError"
proof -
  have o: "one_vector_per_point example_env"
    unfolding example_env_def by (rule one_vector_per_point_store_env)
  have o': "one_vector_per_point stale_env"
    by (simp add: one_vector_per_point_def stale_env_def example_env_def store_env_def
        store_get_collection_def split: option.splits)
  note t = create_collection_postcondition
    [of example_embedding "\<lambda>j. Inr (JsonFilter j)" "\<lambda>t. t" dot_product "''docs''" _ stale_env]
  have re: "client_recreate_collection stale_env ''docs'' p s = (Inr (), s)" for p s
    by (simp add: stale_env_def keep_collection_def)
  have g1: "client_get_collection stale_env ''docs'' [(''docs'', greeting)] =
      (Inr \<lparr>status = Green, points_count = 1, vectors_count = 1\<rparr>, [(''docs'', greeting)])"
    by (simp add: stale_env_def example_env_def store_env_def store_get_collection_def
        greeting_def)
  have g2: "client_get_collection stale_env ''docs''
        [(''docs'', greeting\<lparr>c_status := Yellow, c_points := []\<rparr>)] =
      (Inr \<lparr>status = Yellow, points_count = 0, vectors_count = 0\<rparr>,
       [(''docs'', greeting\<lparr>c_status := Yellow, c_points := []\<rparr>)])"
    by (simp add: stale_env_def example_env_def store_env_def store_get_collection_def
        greeting_def)
  from t [of "example_world\<lparr>client_state := [(''docs'', greeting)]\<rparr>"
            "example_world\<lparr>client_state := [(''docs'', greeting)]\<rparr>"] o' re g1
  have "fst (create_collection example_env ''docs''
          (example_world\<lparr>client_state := [(''docs'', greeting)]\<rparr>)) = Inr () \<and>
        store_points (client_state (snd (create_collection example_env ''docs''
          (example_world\<lparr>client_state := [(''docs'', greeting)]\<rparr>)))) ''docs'' = [] \<and>
        fst (create_collection stale_env ''docs''
          (example_world\<lparr>client_state := [(''docs'', greeting)]\<rparr>)) = Inl AssertionError"
    by (simp add: example_env_def example_world_def)
  moreover
  from t [of "example_world" 
            "example_world\<lparr>client_state := [(''docs'', greeting\<lparr>c_status := Yellow, c_points := []\<rparr>)]\<rparr>"]
    o' re g2
  have "fst (create_collection stale_env ''docs''
          (example_world\<lparr>client_state :=
             [(''docs'', greeting\<lparr>c_status := Yellow, c_points := []\<rparr>)]\<rparr>)) = Inl AssertionError"
    by (simp add: example_world_def)
  ultimately show ?thesis
    using o o' by simp
qed

subsection \<open>Ingesting the same content again\<close>

lemma ids_upsert_point:
  "map pid (upsert_point p pts) =
     (if pid p \<in> set (map pid pts) then map pid pts else map pid pts @ [pid p])"
  by (induction pts) auto

lemma ids_fold_upsert_present:
  "set (map pid ps) \<subseteq> set (map pid pts) \<Longrightarrow> map pid (fold upsert_point ps pts) = map pid pts"
proof (induction ps arbitrary: pts)
  case Nil
  then show ?case by simp
next
  case (Cons p ps)
  then have same: "map pid (upsert_point p pts) = map pid pts"
    by (simp add: ids_upsert_point)
  with Cons.prems have "set (map pid ps) \<subseteq> set (map pid (upsert_point p pts))"
    by simp
  from Cons.IH [OF this] same show ?case by simp
qed

lemma ids_fold_upsert_mono:
  "set (map pid pts) \<subseteq> set (map pid (fold upsert_point ps pts))"
proof (induction ps arbitrary: pts)
  case Nil
  then show ?case by simp
next
  case (Cons p ps)
  have "set (map pid pts) \<subseteq> set (map pid (upsert_point p pts))"
    by (auto simp: ids_upsert_point)
  also have "\<dots> \<subseteq> set (map pid (fold upsert_point ps (upsert_point p pts)))"
    by (rule Cons.IH)
  finally show ?case by simp
qed

lemma ids_fold_upsert_new:
  "set (map pid ps) \<subseteq> set (map pid (fold upsert_point ps pts))"
proof (induction ps arbitrary: pts)
  case Nil
  then show ?case by simp
next
  case (Cons p ps)
  have "pid p \<in> set (map pid (upsert_point p pts))"
    by (simp add: ids_upsert_point)
  then have "pid p \<in> set (map pid (fold upsert_point ps (upsert_point p pts)))"
    using ids_fold_upsert_mono by blast
  with Cons.IH [of "upsert_point p pts"] show ?case by simp
qed

lemma ids_batch_points:
  "length vs = length is \<Longrightarrow> length ds = length is \<Longrightarrow> map pid (batch_points is vs ds) = is"
proof (induction "is" vs ds rule: batch_points.induct)
  case (1 i "is" v vs d ds)
  then show ?case by simp
qed simp_all

lemma map_of_update_collection:
  "map_of (update_collection name f s) name = map_option f (map_of s name)"
  by (induction s) auto

lemma store_env_sel:
  "embedding_fn (store_env emb parse h sim) = emb"
  "client_upsert (store_env emb parse h sim) = store_upsert"
  "unique_hash_id (store_env emb parse h sim) = (\<lambda>d. h (content d))"
  by (simp_all add: store_env_def unique_hash_id_def fun_eq_iff)

lemma add_documents_store_Inr:
  assumes "add_documents (store_env emb parse h sim) ds w = (Inr (), w1)"
    and "collection_name w = Some cn"
  shows "\<exists>vecs col.
           emb (map content ds) = Inr vecs \<and>
           map_of (client_state w) cn = Some col \<and>
           length vecs = length ds \<and>
           \<not> list_ex (\<lambda>v. length v \<noteq> vp_size (c_params col)) vecs \<and>
           collection_name w1 = Some cn \<and>
           client_state w1 =
             update_collection cn
               (\<lambda>cl. cl\<lparr>c_points :=
                  fold upsert_point (batch_points (map (\<lambda>d. h (content d)) ds) vecs ds) (c_points cl)\<rparr>)
               (client_state w)"
  using assms
  by (auto simp: add_documents_def call_embedding_fn_def call_client_def emit_def Let_def
      store_env_sel store_upsert_def
      split: sum.splits option.splits if_splits)

lemma add_documents_store_ok:
  assumes "emb (map content ds) = Inr vecs"
    and "collection_name w = Some cn"
    and "map_of (client_state w) cn = Some col"
    and "length vecs = length ds"
    and "\<not> list_ex (\<lambda>v. length v \<noteq> vp_size (c_params col)) vecs"
  shows "fst (add_documents (store_env emb parse h sim) ds w) = Inr () \<and>
         client_state (snd (add_documents (store_env emb parse h sim) ds w)) =
           update_collection cn
             (\<lambda>cl. cl\<lparr>c_points :=
                fold upsert_point (batch_points (map (\<lambda>d. h (content d)) ds) vecs ds) (c_points cl)\<rparr>)
             (client_state w)"
  using assms
  by (simp add: add_documents_def call_embedding_fn_def call_client_def emit_def Let_def
      store_env_sel store_upsert_def)

lemma find_upsert_point:
  "find (\<lambda>q. pid q = i) (upsert_point p pts) =
     (if pid p = i then Some p else find (\<lambda>q. pid q = i) pts)"
  by (induction pts) auto

lemma find_fold_upsert_absent:
  "i \<notin> set (map pid ps) \<Longrightarrow>
   find (\<lambda>q. pid q = i) (fold upsert_point ps pts) = find (\<lambda>q. pid q = i) pts"
  by (induction ps arbitrary: pts) (auto simp: find_upsert_point)

lemma find_fold_upsert_present:
  "i \<in> set (map pid ps) \<Longrightarrow>
   \<exists>p \<in> set ps. pid p = i \<and> find (\<lambda>q. pid q = i) (fold upsert_point ps pts) = Some p"
proof (induction ps arbitrary: pts)
  case Nil
  then show ?case by simp
next
  case (Cons p ps)
  show ?case
  proof (cases "i \<in> set (map pid ps)")
    case True
    from Cons.IH [OF True, of "upsert_point p pts"] show ?thesis by auto
  next
    case False
    with Cons.prems have "pid p = i" by auto
    with find_fold_upsert_absent [OF False, of "upsert_point p pts"] show ?thesis
      by (simp add: find_upsert_point)
  qed
qed

lemma batch_points_member:
  "p \<in> set (batch_points (map f ds) vs ds) \<Longrightarrow>
   \<exists>d \<in> set ds. pid p = f d \<and> ppayload p = payload_of_document d"
proof (induction ds arbitrary: vs)
  case Nil
  then show ?case by simp
next
  case (Cons d ds)
  then show ?case by (cases vs) auto
qed

lemma stored_from_fold:
  assumes "length vecs = length ds"
  shows "stored_from (store_env emb parse h sim) ds
           (fold upsert_point (batch_points (map (\<lambda>d. h (content d)) ds) vecs ds) pts)"
proof -
  let ?f = "\<lambda>d. h (content d)"
  let ?ps = "batch_points (map ?f ds) vecs ds"
  have ids: "map pid ?ps = map ?f ds"
    using assms by (simp add: ids_batch_points)
  have "\<exists>p. find (\<lambda>q. pid q = ?f d) (fold upsert_point ?ps pts) = Some p \<and>
            (\<exists>d' \<in> set ds. ?f d' = ?f d \<and> ppayload p = payload_of_document d')"
    if "d \<in> set ds" for d
  proof -
    from that have "?f d \<in> set (map pid ?ps)"
      unfolding ids by simp
    from find_fold_upsert_present [OF this, of pts] obtain p where
      p: "p \<in> set ?ps" "pid p = ?f d"
         "find (\<lambda>q. pid q = ?f d) (fold upsert_point ?ps pts) = Some p"
      by blast
    from batch_points_member [OF p(1)] obtain d' where
      "d' \<in> set ds" "pid p = ?f d'" "ppayload p = payload_of_document d'"
      by blast
    with p show ?thesis by auto
  qed
  then show ?thesis
    by (fastforce simp: stored_from_def store_env_sel list_all_iff list_ex_iff)
qed

text \<open>
  C9: documents with the same content get the same identifier. After a batch of
  documents has been ingested, the collection holds it: under the identifier of each
  document a point with the payload of a document of the batch is found. Ingesting
  documents with the same contents again succeeds; the collection then holds the second
  batch, so the points found under the identifiers carry the payloads of the second
  batch, and the identifiers of the points in the collection are as they were: the
  points are overwritten, none is added.
\<close>

theorem reingest_same_content_overwrites:
  assumes "map content ds1 = map content ds2"
    and "collection_name w = Some cn"
    and "add_documents (store_env emb parse h sim) ds1 w = (Inr (), w1)"
  shows "map (unique_hash_id (store_env emb parse h sim)) ds1 =
           map (unique_hash_id (store_env emb parse h sim)) ds2 \<and>
         stored_from (store_env emb parse h sim) ds1 (store_points (client_state w1) cn) \<and>
         fst (add_documents (store_env emb parse h sim) ds2 w1) = Inr () \<and>
         stored_from (store_env emb parse h sim) ds2
           (store_points (client_state (snd (add_documents (store_env emb parse h sim) ds2 w1))) cn) \<and>
         map pid (store_points (client_state (snd (add_documents (store_env emb parse h sim) ds2 w1))) cn) =
           map pid (store_points (client_state w1) cn)"
proof -
  let ?c = "store_env emb parse h sim"
  let ?ids = "map (\<lambda>d. h (content d)) ds1"
  have ids: "map (\<lambda>d. h (content d)) ds2 = ?ids"
  proof -
    have "map h (map content ds2) = map h (map content ds1)"
      using assms(1) by simp
    then show ?thesis by (simp add: comp_def)
  qed
  have len: "length ds2 = length ds1"
    using assms(1) by (metis length_map)
  from add_documents_store_Inr [OF assms(3) assms(2)] obtain vecs col where
    e: "emb (map content ds1) = Inr vecs" and
    look: "map_of (client_state w) cn = Some col" and
    lv: "length vecs = length ds1" and
    dims: "\<not> list_ex (\<lambda>v. length v \<noteq> vp_size (c_params col)) vecs" and
    n1: "collection_name w1 = Some cn" and
    s1: "client_state w1 =
           update_collection cn
             (\<lambda>cl. cl\<lparr>c_points := fold upsert_point (batch_points ?ids vecs ds1) (c_points cl)\<rparr>)
             (client_state w)"
    by blast
  define col1 where
    "col1 = col\<lparr>c_points := fold upsert_point (batch_points ?ids vecs ds1) (c_points col)\<rparr>"
  have look1: "map_of (client_state w1) cn = Some col1"
    by (simp add: s1 map_of_update_collection look col1_def)
  have dims1: "\<not> list_ex (\<lambda>v. length v \<noteq> vp_size (c_params col1)) vecs"
    using dims by (simp add: col1_def)
  have e2: "emb (map content ds2) = Inr vecs"
    using e assms(1) by simp
  have lv2: "length vecs = length ds2"
    using lv len by simp
  from add_documents_store_ok
    [where emb = emb and ds = ds2 and vecs = vecs and w = w1 and cn = cn and col = col1
       and parse = parse and h = h and sim = sim, OF e2 n1 look1 lv2 dims1]
  have ok: "fst (add_documents ?c ds2 w1) = Inr ()"
    and s2: "client_state (snd (add_documents ?c ds2 w1)) =
           update_collection cn
             (\<lambda>cl. cl\<lparr>c_points :=
                fold upsert_point (batch_points (map (\<lambda>d. h (content d)) ds2) vecs ds2)
                  (c_points cl)\<rparr>)
             (client_state w1)"
    by simp_all
  have p1: "store_points (client_state w1) cn =
      fold upsert_point (batch_points ?ids vecs ds1) (c_points col)"
    by (simp add: store_points_def look1 col1_def)
  have p2: "store_points (client_state (snd (add_documents ?c ds2 w1))) cn =
      fold upsert_point (batch_points (map (\<lambda>d. h (content d)) ds2) vecs ds2) (c_points col1)"
    by (simp add: store_points_def s2 map_of_update_collection look1)
  have st1: "stored_from ?c ds1 (store_points (client_state w1) cn)"
    unfolding p1 using lv by (rule stored_from_fold)
  have st2: "stored_from ?c ds2
      (store_points (client_state (snd (add_documents ?c ds2 w1))) cn)"
    unfolding p2 using lv2 by (rule stored_from_fold)
  have b1: "map pid (batch_points ?ids vecs ds1) = ?ids"
    using lv by (simp add: ids_batch_points)
  have b2: "map pid (batch_points ?ids vecs ds2) = ?ids"
    using lv len by (simp add: ids_batch_points)
  have "set ?ids \<subseteq> set (map pid (c_points col1))"
    using ids_fold_upsert_new [of "batch_points ?ids vecs ds1" "c_points col"] b1
    by (simp add: col1_def)
  then have "set (map pid (batch_points ?ids vecs ds2)) \<subseteq> set (map pid (c_points col1))"
    using b2 by simp
  then have "map pid (fold upsert_point (batch_points ?ids vecs ds2) (c_points col1)) =
      map pid (c_points col1)"
    by (rule ids_fold_upsert_present)
  then have same: "map pid (store_points (client_state (snd (add_documents ?c ds2 w1))) cn) =
      map pid (store_points (client_state w1) cn)"
    by (simp add: p1 p2 ids col1_def)
  have eq: "map (unique_hash_id ?c) ds1 = map (unique_hash_id ?c) ds2"
    using ids by (simp add: store_env_sel)
  from eq st1 ok st2 same show ?thesis
    by (intro conjI)
qed

theorem reingest_same_content_overwrites_witness:
  "map content [hello] = map content [hello_again] \<and>
   fst (add_documents example_env [hello]
          (snd (create_collection example_env ''docs'' example_world))) = Inr () \<and>
   store_points (client_state (snd (add_documents example_env [hello]
          (snd (create_collection example_env ''docs'' example_world))))) ''docs'' =
     [\<lparr>pid = ''hello'', pvector = [5, 1, 0], ppayload = [(''content'', ''hello'')]\<rparr>] \<and>
   stored_from example_env [hello]
     (store_points (client_state (snd (add_documents example_env [hello]
          (snd (create_collection example_env ''docs'' example_world))))) ''docs'') \<and>
   fst (add_documents example_env [hello_again]
          (snd (add_documents example_env [hello]
             (snd (create_collection example_env ''docs'' example_world))))) = Inr () \<and>
   store_points (client_state (snd (add_documents example_env [hello_again]
          (snd (add_documents example_env [hello]
             (snd (create_collection example_env ''docs'' example_world))))))) ''docs'' =
     [\<lparr>pid = ''hello'', pvector = [5, 1, 0],
       ppayload = [(''content'', ''hello''), (''source'', ''b.txt'')]\<rparr>] \<and>
   stored_from example_env [hello_again]
     (store_points (client_state (snd (add_documents example_env [hello_again]
          (snd (add_documents example_env [hello]
             (snd (create_collection example_env ''docs'' example_world))))))) ''docs'')"
proof -
  define w where "w = snd (create_collection example_env ''docs'' example_world)"
  define w1 where "w1 = snd (add_documents example_env [hello] w)"
  have c: "map content [hello] = map content [hello_again]"
    by (simp add: hello_def hello_again_def)
  have n: "collection_name w = Some ''docs''"
    unfolding w_def by (rule create_collection_name)
  have f: "fst (add_documents example_env [hello] w) = Inr ()"
    by (simp add: w_def adapter_defs store_defs example_defs)
  then have a: "add_documents (store_env example_embedding (\<lambda>j. Inr (JsonFilter j)) (\<lambda>t. t) dot_product)
      [hello] w = (Inr (), w1)"
    unfolding w1_def example_env_def by (metis prod.collapse)
  have p1: "store_points (client_state w1) ''docs'' =
     [\<lparr>pid = ''hello'', pvector = [5, 1, 0], ppayload = [(''content'', ''hello'')]\<rparr>]"
    by (simp add: w1_def w_def adapter_defs store_defs example_defs)
  have p2: "store_points (client_state (snd (add_documents example_env [hello_again] w1))) ''docs'' =
     [\<lparr>pid = ''hello'', pvector = [5, 1, 0],
       ppayload = [(''content'', ''hello''), (''source'', ''b.txt'')]\<rparr>]"
    by (simp add: w1_def w_def adapter_defs store_defs example_defs hello_again_def)
  from reingest_same_content_overwrites [OF c n a]
  have "stored_from example_env [hello] (store_points (client_state w1) ''docs'') \<and>
        fst (add_documents example_env [hello_again] w1) = Inr () \<and>
        stored_from example_env [hello_again]
          (store_points (client_state (snd (add_documents example_env [hello_again] w1))) ''docs'')"
    by (simp add: example_env_def)
  with c f p1 p2 show ?thesis
    unfolding w1_def w_def by simp
qed

end
